theory Spec2Isabelle
  imports Main "HOL-Library.Word"
begin

unbundle bit_operations_syntax

section \<open>Ingress node firewall loader: port texts\<close>

text \<open>
  The loader (package \<open>nodefwloader\<close>) turns the port text of a firewall rule into a pair of
  16-bit ports with \<open>parseDstPorts\<close>. Go strings are byte strings: they are modelled as
  \<open>string\<close>, one \<open>char\<close> per byte. The functions of Go's standard library that
  \<open>parseDstPorts\<close> calls are written out as the library computes them, for the arguments the
  loader passes (base 10, bit size 16, separator \<open>-\<close>, at most 2 pieces).
\<close>

type_synonym byte = "8 word"
type_synonym uint16 = "16 word"
type_synonym uint32 = "32 word"
type_synonym uint64 = "64 word"

datatype num_error = ErrSyntax | ErrRange

text \<open>\<open>lower(c)\<close> of package strconv: \<open>c | ('x' - 'X')\<close>, on the byte value.\<close>

definition lower :: "nat \<Rightarrow> nat" where
  "lower c = c OR 32"

text \<open>
  One byte of the loop of \<open>strconv.ParseUint\<close>: the digit value \<open>d\<close> of the byte, where a
  decimal digit counts \<open>c - '0'\<close>, a letter counts \<open>lower(c) - 'a' + 10\<close> and anything else is
  a syntax error; a value \<open>d \<ge> base\<close> is a syntax error as well.
\<close>

definition digitVal :: "char \<Rightarrow> num_error + nat" where
  "digitVal ch =
     (let c = (of_char ch :: nat) in
      if 48 \<le> c \<and> c \<le> 57 then
        (let d = c - 48 in if d \<ge> 10 then Inl ErrSyntax else Inr d)
      else if 97 \<le> lower c \<and> lower c \<le> 122 then
        (let d = lower c - 97 + 10 in if d \<ge> 10 then Inl ErrSyntax else Inr d)
      else Inl ErrSyntax)"

definition maxVal :: nat where
  "maxVal = 65535"  \<comment> \<open>\<open>1 << 16 - 1\<close>\<close>

definition cutoff :: nat where
  "cutoff = 1844674407370955162"  \<comment> \<open>\<open>maxUint64 / 10 + 1\<close>\<close>

text \<open>
  The loop of \<open>ParseUint(s, 10, 16)\<close> over the bytes of \<open>s\<close>, with the accumulator \<open>n\<close>.
  The accumulator is a \<open>uint64\<close> in Go; it never exceeds \<open>maxVal\<close> here, so that neither
  \<open>n * 10\<close> nor \<open>n + d\<close> can wrap and the natural numbers compute the same values.
\<close>

fun parseUintLoop :: "nat \<Rightarrow> string \<Rightarrow> num_error + nat" where
  "parseUintLoop n [] = Inr n"
| "parseUintLoop n (ch # cs) =
     (case digitVal ch of
        Inl e \<Rightarrow> Inl e
      | Inr d \<Rightarrow>
          if n \<ge> cutoff then Inl ErrRange
          else let n1 = n * 10 + d in
            if n1 < n * 10 \<or> n1 > maxVal then Inl ErrRange
            else parseUintLoop n1 cs)"

definition ParseUint :: "string \<Rightarrow> num_error + nat" where
  "ParseUint s = (if s = [] then Inl ErrSyntax else parseUintLoop 0 s)"

text \<open>\<open>strings.Contains(s, "-")\<close> and \<open>strings.SplitN(s, "-", 2)\<close>.\<close>

definition containsHyphen :: "string \<Rightarrow> bool" where
  "containsHyphen s = (CHR ''-'' \<in> set s)"

definition SplitN2 :: "string \<Rightarrow> string list" where
  "SplitN2 s =
     (case dropWhile (\<lambda>c. c \<noteq> CHR ''-'') s of
        [] \<Rightarrow> [s]
      | _ # rest \<Rightarrow> [takeWhile (\<lambda>c. c \<noteq> CHR ''-'') s, rest])"

datatype port_error =
    InvalidPort num_error
  | InvalidRange
  | InvalidStartPort num_error
  | InvalidEndPort num_error

definition parseDstPorts :: "string \<Rightarrow> port_error + (uint16 \<times> uint16)" where
  "parseDstPorts ports =
     (if \<not> containsHyphen ports then
        (case ParseUint ports of
           Inl e \<Rightarrow> Inl (InvalidPort e)
         | Inr port \<Rightarrow> Inr (word_of_nat port, 0))
      else
        (let ps = SplitN2 ports in
         if length ps \<noteq> 2 then Inl InvalidRange
         else
           (case ParseUint (ps ! 0) of
              Inl e \<Rightarrow> Inl (InvalidStartPort e)
            | Inr startPort \<Rightarrow>
                (case ParseUint (ps ! 1) of
                   Inl e \<Rightarrow> Inl (InvalidEndPort e)
                 | Inr endPort \<Rightarrow> Inr (word_of_nat startPort, word_of_nat endPort)))))"

text \<open>
  The port texts of the specification: a decimal integer is a non-empty sequence of the
  digits \<open>0\<close> to \<open>9\<close>, and its value is read in base ten.
\<close>

definition is_digit :: "char \<Rightarrow> bool" where
  "is_digit c = (c \<in> set ''0123456789'')"

definition decimal_integer :: "string \<Rightarrow> bool" where
  "decimal_integer s = (s \<noteq> [] \<and> list_all is_digit s)"

definition decimal_value :: "string \<Rightarrow> nat" where
  "decimal_value s = foldl (\<lambda>n c. 10 * n + (of_char c - 48)) 0 s"

definition port_text :: "string \<Rightarrow> bool" where
  "port_text s = (decimal_integer s \<and> decimal_value s \<le> 65535)"

section \<open>Rule compiler\<close>

text \<open>
  Modelled from the spec: the policy object \<open>IngressNodeFirewallRules\<close> (API package) and
  the table entries \<open>bpfRuleTypeSt\<close>, \<open>bpfRulesValSt\<close> and \<open>bpfBpfLpmIpKeySt\<close> (the file
  generated by bpf2go) are declared outside the loader's source. A policy is a list of
  source address ranges and a list of rules; a rule has a rule id, a protocol tag, an
  action and its payload, the port text or the ICMP type and code; a table value is a
  count and a fixed-capacity array of entries; a key is a prefix length and 16 address
  bytes. The records below have the fields that \<open>makeIngressFwRulesMap\<close> reads and writes,
  with the widths of the values the code assigns to them. The protocol and the action of
  a rule are open string types: every value other than the named constants is an
  \<open>Other\<close> value here.
\<close>

datatype protocol_type =
    ProtocolTypeTCP
  | ProtocolTypeUDP
  | ProtocolTypeSCTP
  | ProtocolTypeICMP
  | ProtocolTypeICMPv6
  | ProtocolTypeOther string

datatype action_type =
    IngressNodeFirewallAllow
  | IngressNodeFirewallDeny
  | ActionOther string

record firewall_protocol_rule =
  Order :: uint32
  Protocol :: protocol_type
  Ports :: string
  ICMPType :: byte
  ICMPCode :: byte
  Action :: action_type

record ingress_node_firewall_rules =
  SourceCIDRs :: "string list"
  FirewallProtocolRules :: "firewall_protocol_rule list"

record bpfRuleTypeSt =
  RuleId :: uint32
  bpfProtocol :: byte
  DstPortStart :: uint16
  DstPortEnd :: uint16
  IcmpType :: byte
  IcmpCode :: byte
  bpfAction :: byte

record bpfRulesValSt =
  NumRules :: uint32
  Rules :: "bpfRuleTypeSt list"

record bpfBpfLpmIpKeySt =
  PrefixLen :: uint32
  IpData :: "byte list"

definition xdpDeny :: byte where
  "xdpDeny = 1"

definition xdpAllow :: byte where
  "xdpAllow = 2"

definition IPPROTO_ICMP :: byte where "IPPROTO_ICMP = 1"
definition IPPROTO_TCP :: byte where "IPPROTO_TCP = 6"
definition IPPROTO_UDP :: byte where "IPPROTO_UDP = 17"
definition IPPROTO_ICMPV6 :: byte where "IPPROTO_ICMPV6 = 58"
definition IPPROTO_SCTP :: byte where "IPPROTO_SCTP = 132"

text \<open>
  What a compile call can end with other than success. The first six are the errors the
  function returns with \<open>fmt.Errorf\<close>; the last is not a returned error but the run-time
  panic of Go for an array index (first argument) outside an array of the given length.
\<close>

datatype compile_error =
    InvalidPorts string protocol_type
  | InvalidProtocol protocol_type
  | InvalidAction action_type
  | FailedParseSourceCIDRs string
  | FailedDeleting string
  | FailedUpdating string
  | PanicIndexOutOfRange nat nat

fun returned_error :: "compile_error + 'a \<Rightarrow> bool" where
  "returned_error (Inl (PanicIndexOutOfRange i n)) = False"
| "returned_error (Inl e) = True"
| "returned_error (Inr v) = False"

text \<open>The first \<open>switch\<close> of the loop body, on \<open>rule.Protocol\<close>.\<close>

definition portsEntry ::
  "firewall_protocol_rule \<Rightarrow> byte \<Rightarrow> bpfRuleTypeSt \<Rightarrow> compile_error + bpfRuleTypeSt" where
  "portsEntry rule proto e =
     (case parseDstPorts (Ports rule) of
        Inl err \<Rightarrow> Inl (InvalidPorts (Ports rule) (Protocol rule))
      | Inr (start, end) \<Rightarrow>
          Inr (e\<lparr>DstPortStart := start, DstPortEnd := end, bpfProtocol := proto\<rparr>))"

definition icmpEntry :: "firewall_protocol_rule \<Rightarrow> byte \<Rightarrow> bpfRuleTypeSt \<Rightarrow> bpfRuleTypeSt" where
  "icmpEntry rule proto e =
     e\<lparr>IcmpType := ICMPType rule, IcmpCode := ICMPCode rule, bpfProtocol := proto\<rparr>"

definition protocolEntry ::
  "firewall_protocol_rule \<Rightarrow> bpfRuleTypeSt \<Rightarrow> compile_error + bpfRuleTypeSt" where
  "protocolEntry rule e =
     (case Protocol rule of
        ProtocolTypeTCP \<Rightarrow> portsEntry rule IPPROTO_TCP e
      | ProtocolTypeUDP \<Rightarrow> portsEntry rule IPPROTO_UDP e
      | ProtocolTypeSCTP \<Rightarrow> portsEntry rule IPPROTO_SCTP e
      | ProtocolTypeICMP \<Rightarrow> Inr (icmpEntry rule IPPROTO_ICMP e)
      | ProtocolTypeICMPv6 \<Rightarrow> Inr (icmpEntry rule IPPROTO_ICMPV6 e)
      | ProtocolTypeOther t \<Rightarrow> Inl (InvalidProtocol (Protocol rule)))"

text \<open>The second \<open>switch\<close>, on \<open>rule.Action\<close>.\<close>

definition actionEntry ::
  "firewall_protocol_rule \<Rightarrow> bpfRuleTypeSt \<Rightarrow> compile_error + bpfRuleTypeSt" where
  "actionEntry rule e =
     (case Action rule of
        IngressNodeFirewallAllow \<Rightarrow> Inr (e\<lparr>bpfAction := xdpAllow\<rparr>)
      | IngressNodeFirewallDeny \<Rightarrow> Inr (e\<lparr>bpfAction := xdpDeny\<rparr>)
      | ActionOther t \<Rightarrow> Inl (InvalidAction (Action rule)))"

definition compileRule ::
  "firewall_protocol_rule \<Rightarrow> bpfRuleTypeSt \<Rightarrow> compile_error + bpfRuleTypeSt" where
  "compileRule rule e =
     (case protocolEntry rule (e\<lparr>RuleId := Order rule\<rparr>) of
        Inl err \<Rightarrow> Inl err
      | Inr e' \<Rightarrow> actionEntry rule e')"

text \<open>
  The loop over \<open>FirewallProtocolRules\<close>. \<open>rules.Rules\<close> is an array of fixed length: the
  assignment to \<open>rules.Rules[idx]\<close> panics when \<open>idx\<close> is not below that length.
\<close>

fun rulesLoop ::
  "nat \<Rightarrow> firewall_protocol_rule list \<Rightarrow> bpfRulesValSt \<Rightarrow> compile_error + bpfRulesValSt" where
  "rulesLoop idx [] rules = Inr rules"
| "rulesLoop idx (rule # rest) rules =
     (if idx \<ge> length (Rules rules)
      then Inl (PanicIndexOutOfRange idx (length (Rules rules)))
      else
        (case compileRule rule (Rules rules ! idx) of
           Inl err \<Rightarrow> Inl err
         | Inr e \<Rightarrow> rulesLoop (Suc idx) rest (rules\<lparr>Rules := (Rules rules)[idx := e]\<rparr>)))"

text \<open>
  \<open>net.IP\<close> is a byte slice of length 4 or 16 (or \<open>nil\<close>, the empty list here).
  \<open>To4\<close> and \<open>To16\<close> return \<open>nil\<close> as \<open>None\<close>; \<open>copy\<close> overwrites the first
  \<open>min (len dst) (len src)\<close> bytes of its destination.
\<close>

definition To4 :: "byte list \<Rightarrow> byte list option" where
  "To4 ip =
     (if length ip = 4 then Some ip
      else if length ip = 16 \<and> list_all (\<lambda>b. b = 0) (take 10 ip)
              \<and> ip ! 10 = 0xff \<and> ip ! 11 = 0xff
      then Some (drop 12 ip)
      else None)"

definition To16 :: "byte list \<Rightarrow> byte list option" where
  "To16 ip =
     (if length ip = 4 then Some ([0, 0, 0, 0, 0, 0, 0, 0, 0, 0, 0xff, 0xff] @ ip)
      else if length ip = 16 then Some ip
      else None)"

definition copy :: "'a list \<Rightarrow> 'a list \<Rightarrow> 'a list" where
  "copy dst src = take (length dst) src @ drop (length src) dst"

text \<open>
  The kernel table and \<open>net.ParseCIDR\<close> are outside the loader. A compile call is given
  them as an environment: \<open>ParseCIDR\<close> returns the address and the number of leading ones
  of the mask, or \<open>None\<close> for an error; \<open>MapUpdate\<close> and \<open>MapDelete\<close> are the two table
  operations on a store of any type \<open>'s\<close>, returning the new store or an error text.
  A compile call returns, besides its result, the store it leaves and the list of table
  operations it issued, in order.
\<close>

datatype map_op =
    OpUpdate bpfBpfLpmIpKeySt bpfRulesValSt
  | OpDelete bpfBpfLpmIpKeySt

record 's compile_env =
  ParseCIDR :: "string \<Rightarrow> (byte list \<times> nat) option"
  MapUpdate :: "bpfBpfLpmIpKeySt \<Rightarrow> bpfRulesValSt \<Rightarrow> 's \<Rightarrow> string + 's"
  MapDelete :: "bpfBpfLpmIpKeySt \<Rightarrow> 's \<Rightarrow> string + 's"

definition makeKey :: "bpfBpfLpmIpKeySt \<Rightarrow> byte list \<Rightarrow> nat \<Rightarrow> bpfBpfLpmIpKeySt" where
  "makeKey key ip pfLen =
     (let src = (case To4 ip of
                   Some v4 \<Rightarrow> v4
                 | None \<Rightarrow> (case To16 ip of Some v6 \<Rightarrow> v6 | None \<Rightarrow> []))
      in key\<lparr>IpData := copy (IpData key) src, PrefixLen := word_of_nat pfLen\<rparr>)"

fun cidrLoop ::
  "'s compile_env \<Rightarrow> bool \<Rightarrow> bpfRulesValSt \<Rightarrow> string list \<Rightarrow> bpfBpfLpmIpKeySt \<Rightarrow> 's \<Rightarrow>
   map_op list \<Rightarrow> (compile_error + unit) \<times> 's \<times> map_op list" where
  "cidrLoop env isDelete rules [] key store ops = (Inr (), store, ops)"
| "cidrLoop env isDelete rules (cidr # rest) key store ops =
     (case ParseCIDR env cidr of
        None \<Rightarrow> (Inl (FailedParseSourceCIDRs cidr), store, ops)
      | Some (ip, pfLen) \<Rightarrow>
          (let key' = makeKey key ip pfLen in
           if isDelete then
             (case MapDelete env key' store of
                Inl err \<Rightarrow> (Inl (FailedDeleting err), store, ops @ [OpDelete key'])
              | Inr store' \<Rightarrow>
                  cidrLoop env isDelete rules rest key' store' (ops @ [OpDelete key']))
           else
             (case MapUpdate env key' rules store of
                Inl err \<Rightarrow> (Inl (FailedUpdating err), store, ops @ [OpUpdate key' rules])
              | Inr store' \<Rightarrow>
                  cidrLoop env isDelete rules rest key' store' (ops @ [OpUpdate key' rules]))))"

definition zeroRule :: bpfRuleTypeSt where
  "zeroRule = \<lparr>RuleId = 0, bpfProtocol = 0, DstPortStart = 0, DstPortEnd = 0,
               IcmpType = 0, IcmpCode = 0, bpfAction = 0\<rparr>"

definition zeroKey :: bpfBpfLpmIpKeySt where
  "zeroKey = \<lparr>PrefixLen = 0, IpData = replicate 16 0\<rparr>"

text \<open>
  \<open>makeIngressFwRulesMap\<close>. The length \<open>cap\<close> of the array \<open>Rules\<close> of \<open>bpfRulesValSt\<close> is
  a constant of the generated file and a parameter here. The lines written with
  \<open>log.Printf\<close> are left out: they change neither the result nor the store.
\<close>

definition makeIngressFwRulesMap ::
  "'s compile_env \<Rightarrow> nat \<Rightarrow> ingress_node_firewall_rules \<Rightarrow> bool \<Rightarrow> 's \<Rightarrow>
   (compile_error + unit) \<times> 's \<times> map_op list" where
  "makeIngressFwRulesMap env cap ingFirewallConfig isDelete store =
     (let rules0 = \<lparr>NumRules = word_of_nat (length (FirewallProtocolRules ingFirewallConfig)),
                    Rules = replicate cap zeroRule\<rparr>
      in case rulesLoop 0 (FirewallProtocolRules ingFirewallConfig) rules0 of
           Inl err \<Rightarrow> (Inl err, store, [])
         | Inr rules \<Rightarrow> cidrLoop env isDelete rules (SourceCIDRs ingFirewallConfig) zeroKey store [])"

text \<open>
  The rules of the specification that a compile call rejects: an unknown protocol tag, an
  unknown action, or a port text that does not parse (for the protocols that carry ports).
\<close>

definition unknown_protocol :: "firewall_protocol_rule \<Rightarrow> bool" where
  "unknown_protocol r = (case Protocol r of ProtocolTypeOther t \<Rightarrow> True | _ \<Rightarrow> False)"

definition unknown_action :: "firewall_protocol_rule \<Rightarrow> bool" where
  "unknown_action r = (case Action r of ActionOther t \<Rightarrow> True | _ \<Rightarrow> False)"

definition carries_ports :: "firewall_protocol_rule \<Rightarrow> bool" where
  "carries_ports r = (Protocol r \<in> {ProtocolTypeTCP, ProtocolTypeUDP, ProtocolTypeSCTP})"

definition unparseable_ports :: "firewall_protocol_rule \<Rightarrow> bool" where
  "unparseable_ports r = (carries_ports r \<and> isl (parseDstPorts (Ports r)))"

definition invalid_rule :: "firewall_protocol_rule \<Rightarrow> bool" where
  "invalid_rule r = (unknown_protocol r \<or> unknown_action r \<or> unparseable_ports r)"

subsection \<open>Example inputs of the rule compiler\<close>

text \<open>
  A table kept as an association list: an update replaces the entry of the key, a delete
  of a key that is absent is an error. The example \<open>ParseCIDR\<close> knows two address ranges.
\<close>

type_synonym list_store = "(bpfBpfLpmIpKeySt \<times> bpfRulesValSt) list"

definition listStoreEnv :: "list_store compile_env" where
  "listStoreEnv =
     \<lparr>ParseCIDR = (\<lambda>s.
         if s = ''10.0.0.0/8''
         then Some ([0, 0, 0, 0, 0, 0, 0, 0, 0, 0, 0xff, 0xff, 10, 0, 0, 0], 8)
         else if s = ''fd00::/8''
         then Some ([0xfd, 0, 0, 0, 0, 0, 0, 0, 0, 0, 0, 0, 0, 0, 0, 0], 8)
         else None),
       MapUpdate = (\<lambda>k v s. Inr ((k, v) # filter (\<lambda>p. fst p \<noteq> k) s)),
       MapDelete = (\<lambda>k s.
         if k \<in> fst ` set s then Inr (filter (\<lambda>p. fst p \<noteq> k) s)
         else Inl ''key does not exist'')\<rparr>"

definition tcpRule :: firewall_protocol_rule where
  "tcpRule = \<lparr>Order = 1, Protocol = ProtocolTypeTCP, Ports = ''80-443'',
              ICMPType = 0, ICMPCode = 0, Action = IngressNodeFirewallAllow\<rparr>"

definition icmpRule :: firewall_protocol_rule where
  "icmpRule = \<lparr>Order = 2, Protocol = ProtocolTypeICMP, Ports = [],
               ICMPType = 8, ICMPCode = 0, Action = IngressNodeFirewallDeny\<rparr>"

definition udpRule :: firewall_protocol_rule where
  "udpRule = \<lparr>Order = 3, Protocol = ProtocolTypeUDP, Ports = ''53'',
              ICMPType = 0, ICMPCode = 0, Action = IngressNodeFirewallDeny\<rparr>"

definition greRule :: firewall_protocol_rule where
  "greRule = \<lparr>Order = 4, Protocol = ProtocolTypeOther ''GRE'', Ports = [],
              ICMPType = 0, ICMPCode = 0, Action = IngressNodeFirewallAllow\<rparr>"

section \<open>Attachment manager\<close>

text \<open>
  \<open>IngressNodeFwAttach\<close> and \<open>cleanup\<close> work on the controller (its list \<open>links\<close> and its
  \<open>pinPath\<close>) and on the kernel, through the packages \<open>net\<close> and \<open>link\<close> and the generated
  \<open>objs.Close\<close>. The state below holds the two fields of the controller and the trace of the
  calls made to the kernel so far, in order; what a call answers is given by an environment.
  A link is the handle that \<open>link.AttachXDP\<close> returns.

  Modelled from the spec: \<open>objs.Close\<close> is in the file generated by bpf2go; it releases
  all table and program resources, and is the call \<open>CallCloseObjs\<close> of the trace.
\<close>

datatype link = Link nat

datatype kernel_call =
    CallAttachXDP int link
  | CallAttachXDPFailed int
  | CallPin link string
  | CallPinFailed link string
  | CallUnpin link
  | CallCloseLink link
  | CallCloseObjs

record loader_state =
  links :: "link list"
  pinPath :: string
  trace :: "kernel_call list"

record net_interface =
  ifName :: string
  ifIndex :: int

record attach_env =
  InterfaceByName :: "string \<Rightarrow> string + net_interface"
  AttachXDP :: "loader_state \<Rightarrow> int \<Rightarrow> string + link"
  Pin :: "loader_state \<Rightarrow> link \<Rightarrow> string \<Rightarrow> string option"
  pathJoin :: "string \<Rightarrow> string \<Rightarrow> string"

datatype attach_error =
    LookupFailed string string
  | AttachFailed string
  | PinFailed string string

text \<open>
  \<open>cleanup\<close>: \<open>Unpin\<close> and \<open>Close\<close> for every link of the list, in order, then
  \<open>objs.Close\<close>. The errors of the three calls are dropped by the code, and the list
  \<open>links\<close> itself is not changed.
\<close>

fun cleanupLinks :: "link list \<Rightarrow> kernel_call list \<Rightarrow> kernel_call list" where
  "cleanupLinks [] tr = tr"
| "cleanupLinks (l # ls) tr = cleanupLinks ls (tr @ [CallUnpin l, CallCloseLink l])"

definition cleanup :: "loader_state \<Rightarrow> loader_state" where
  "cleanup infc = infc\<lparr>trace := cleanupLinks (links infc) (trace infc) @ [CallCloseObjs]\<rparr>"

text \<open>
  The loop of \<open>IngressNodeFwAttach\<close> over the interface names. The lines written with
  \<open>log.Printf\<close> are left out.
\<close>

fun attachLoop ::
  "attach_env \<Rightarrow> bool \<Rightarrow> string list \<Rightarrow> loader_state \<Rightarrow> (attach_error + unit) \<times> loader_state" where
  "attachLoop env isDelete [] infc = (Inr (), infc)"
| "attachLoop env isDelete (ifaceName # rest) infc =
     (case InterfaceByName env ifaceName of
        Inl err \<Rightarrow> (Inl (LookupFailed ifaceName err), infc)
      | Inr iface \<Rightarrow>
          if \<not> isDelete then
            (case AttachXDP env infc (ifIndex iface) of
               Inl err \<Rightarrow>
                 (Inl (AttachFailed err),
                  infc\<lparr>trace := trace infc @ [CallAttachXDPFailed (ifIndex iface)]\<rparr>)
             | Inr l \<Rightarrow>
                 (let infc1 = infc\<lparr>trace := trace infc @ [CallAttachXDP (ifIndex iface) l]\<rparr>;
                      lPinDir = pathJoin env (pinPath infc) (ifaceName @ ''_link'')
                  in case Pin env infc1 l lPinDir of
                       Some err \<Rightarrow>
                         (Inl (PinFailed lPinDir err),
                          infc1\<lparr>trace := trace infc1 @ [CallPinFailed l lPinDir]\<rparr>)
                     | None \<Rightarrow>
                         attachLoop env isDelete rest
                           (infc1\<lparr>trace := trace infc1 @ [CallPin l lPinDir],
                                  links := links infc1 @ [l]\<rparr>)))
          else attachLoop env isDelete rest (cleanup infc))"

definition IngressNodeFwAttach ::
  "attach_env \<Rightarrow> string list \<Rightarrow> bool \<Rightarrow> loader_state \<Rightarrow> (attach_error + unit) \<times> loader_state" where
  "IngressNodeFwAttach env ifacesName isDelete infc = attachLoop env isDelete ifacesName infc"

text \<open>The calls that release something, and the calls that attach or pin.\<close>

fun is_release :: "kernel_call \<Rightarrow> bool" where
  "is_release (CallUnpin l) = True"
| "is_release (CallCloseLink l) = True"
| "is_release CallCloseObjs = True"
| "is_release c = False"

text \<open>The calls that one \<open>cleanup\<close> makes for a list of links.\<close>

definition cleanup_calls :: "link list \<Rightarrow> kernel_call list" where
  "cleanup_calls ls = concat (map (\<lambda>l. [CallUnpin l, CallCloseLink l]) ls) @ [CallCloseObjs]"

text \<open>The names that \<open>net.InterfaceByName\<close> resolves.\<close>

definition resolves :: "attach_env \<Rightarrow> string \<Rightarrow> bool" where
  "resolves env name = (case InterfaceByName env name of Inl err \<Rightarrow> False | Inr iface \<Rightarrow> True)"

subsection \<open>Example inputs of the attachment manager\<close>

text \<open>
  A node with the interfaces \<open>eth0\<close> (index 2) and \<open>eth1\<close> (index 3), on which every attach
  and every pin succeeds; the handle of a new link is the number of calls made before it.
\<close>

definition twoIfacesEnv :: attach_env where
  "twoIfacesEnv =
     \<lparr>InterfaceByName = (\<lambda>n.
         if n = ''eth0'' then Inr \<lparr>ifName = ''eth0'', ifIndex = 2\<rparr>
         else if n = ''eth1'' then Inr \<lparr>ifName = ''eth1'', ifIndex = 3\<rparr>
         else Inl ''no such network interface''),
       AttachXDP = (\<lambda>infc idx. Inr (Link (length (trace infc)))),
       Pin = (\<lambda>infc l p. None),
       pathJoin = (\<lambda>a b. a @ ''/'' @ b)\<rparr>"

definition emptyLoader :: loader_state where
  "emptyLoader = \<lparr>links = [], pinPath = ''/sys/fs/bpf/xdp_ingress_node_firewall_process'',
                  trace = []\<rparr>"

definition loaderWithLink :: loader_state where
  "loaderWithLink = \<lparr>links = [Link 0], pinPath = ''/sys/fs/bpf/xdp_ingress_node_firewall_process'',
                     trace = [CallAttachXDP 2 (Link 0),
                              CallPin (Link 0) ''/sys/fs/bpf/xdp_ingress_node_firewall_process/eth0_link'']\<rparr>"

section \<open>Event pipeline\<close>

text \<open>
  The reader task of \<open>ingressNodeFwEvents\<close> reads records from the perf ring buffer; each
  \<open>rd.Read()\<close> returns a record or an error. A record carries its raw sample and the count
  of lost samples. What \<open>ingressNodeFwEvents\<close> does before it starts the task (opening the
  reader, connecting to syslog, starting the task that waits for a signal) is not part of
  the model.
\<close>

record perf_record =
  RawSample :: "byte list"
  LostSamples :: uint64

datatype read_result =
    ReadClosed
  | ReadError string
  | ReadRecord perf_record

text \<open>
  Modelled from the spec: the struct \<open>BpfEventHdrSt\<close> is generated by bpf2go and is not in
  the loader's source. The event header of the specification has an interface index of
  2 bytes, a rule id of 2 bytes, an action of 1 byte, padding, and a packet length of
  2 bytes; the code reads it up to byte 7, so that its size \<open>eventHdrSize\<close> is 8 bytes.
\<close>

record BpfEventHdrSt =
  IfId :: uint16
  hdrRuleId :: uint16
  hdrAction :: byte
  PktLength :: uint16

text \<open>
  Modelled from the spec: \<open>unsafe.Sizeof(eventHdr)\<close>, the 2 + 2 + 1 + 1 + 2 bytes of the
  header with its byte of padding.
\<close>

definition eventHdrSize :: nat where
  "eventHdrSize = 8"

text \<open>\<open>binary.LittleEndian.Uint16(b)\<close> is \<open>b[0] | b[1] << 8\<close>.\<close>

definition LittleEndian_Uint16 :: "byte list \<Rightarrow> uint16" where
  "LittleEndian_Uint16 b = ucast (b ! 0) OR push_bit 8 (ucast (b ! 1))"

text \<open>
  \<open>io.ReadFull\<close> on a buffer over the bytes \<open>src\<close>, into \<open>n\<close> bytes: the first \<open>n\<close> bytes,
  or \<open>EOF\<close> when nothing could be read, or \<open>ErrUnexpectedEOF\<close> when fewer than \<open>n\<close> bytes
  were there. Reading no bytes always succeeds.
\<close>

datatype io_error = EOF | ErrUnexpectedEOF

definition ReadFull :: "byte list \<Rightarrow> nat \<Rightarrow> io_error + byte list" where
  "ReadFull src n =
     (if n = 0 then Inr []
      else if n \<le> length src then Inr (take n src)
      else if src = [] then Inl EOF
      else Inl ErrUnexpectedEOF)"

datatype decode_error = HeaderError io_error | PacketError io_error

text \<open>
  The decoding of one record: the header is read into \<open>buf\<close> and taken apart at fixed
  offsets, then \<open>binary.Read\<close> fills the slice \<open>packet\<close> of length \<open>PktLength\<close> from the
  bytes after the header.
\<close>

definition decodeEvent :: "byte list \<Rightarrow> decode_error + (BpfEventHdrSt \<times> byte list)" where
  "decodeEvent raw =
     (case ReadFull raw eventHdrSize of
        Inl err \<Rightarrow> Inl (HeaderError err)
      | Inr buf \<Rightarrow>
          (let eventHdr = \<lparr>IfId = LittleEndian_Uint16 (take 2 buf),
                           hdrRuleId = LittleEndian_Uint16 (take 2 (drop 2 buf)),
                           hdrAction = buf ! 4,
                           PktLength = LittleEndian_Uint16 (take 2 (drop 6 buf))\<rparr>
           in case ReadFull (drop eventHdrSize raw) (unat (PktLength eventHdr)) of
                Inl err \<Rightarrow> Inl (PacketError err)
              | Inr packet \<Rightarrow> Inr (eventHdr, packet)))"

text \<open>Decimal rendering of a number, as \<open>%d\<close> prints an unsigned value.\<close>

definition digitChar :: "nat \<Rightarrow> char" where
  "digitChar d = ''0123456789'' ! d"

fun showNat :: "nat \<Rightarrow> string" where
  "showNat n =
     (if n < 10 then [digitChar n]
      else showNat (n div 10) @ [digitChar (n mod 10)])"

declare showNat.simps [simp del]

definition convertXdpActionToString :: "byte \<Rightarrow> string" where
  "convertXdpActionToString action =
     (if action = xdpDeny then ''Drop''
      else if action = xdpAllow then ''Allow''
      else ''Invalid action '' @ showNat (unat action))"

text \<open>
  The layers that gopacket finds in a packet, with the fields the loader prints.
  \<open>Layer(t)\<close> returns the first layer of type \<open>t\<close>, or \<open>nil\<close>.
\<close>

datatype layer =
    LayerEthernet
  | LayerIPv4 "byte list" "byte list"
  | LayerIPv6 "byte list" "byte list"
  | LayerTCP uint16 uint16
  | LayerUDP uint16 uint16
  | LayerSCTP uint16 uint16
  | LayerICMPv4 uint16
  | LayerICMPv6 uint16
  | LayerPayload

fun layerIPv4 :: "layer list \<Rightarrow> (byte list \<times> byte list) option" where
  "layerIPv4 [] = None"
| "layerIPv4 (LayerIPv4 s d # ls) = Some (s, d)"
| "layerIPv4 (l # ls) = layerIPv4 ls"

fun layerIPv6 :: "layer list \<Rightarrow> (byte list \<times> byte list) option" where
  "layerIPv6 [] = None"
| "layerIPv6 (LayerIPv6 s d # ls) = Some (s, d)"
| "layerIPv6 (l # ls) = layerIPv6 ls"

fun layerTCP :: "layer list \<Rightarrow> (uint16 \<times> uint16) option" where
  "layerTCP [] = None"
| "layerTCP (LayerTCP s d # ls) = Some (s, d)"
| "layerTCP (l # ls) = layerTCP ls"

fun layerUDP :: "layer list \<Rightarrow> (uint16 \<times> uint16) option" where
  "layerUDP [] = None"
| "layerUDP (LayerUDP s d # ls) = Some (s, d)"
| "layerUDP (l # ls) = layerUDP ls"

fun layerSCTP :: "layer list \<Rightarrow> (uint16 \<times> uint16) option" where
  "layerSCTP [] = None"
| "layerSCTP (LayerSCTP s d # ls) = Some (s, d)"
| "layerSCTP (l # ls) = layerSCTP ls"

fun layerICMPv4 :: "layer list \<Rightarrow> uint16 option" where
  "layerICMPv4 [] = None"
| "layerICMPv4 (LayerICMPv4 tc # ls) = Some tc"
| "layerICMPv4 (l # ls) = layerICMPv4 ls"

fun layerICMPv6 :: "layer list \<Rightarrow> uint16 option" where
  "layerICMPv6 [] = None"
| "layerICMPv6 (LayerICMPv6 tc # ls) = Some tc"
| "layerICMPv6 (l # ls) = layerICMPv6 ls"

text \<open>\<open>TypeCode.Type()\<close> is the high byte and \<open>TypeCode.Code()\<close> the low byte.\<close>

definition typeOf :: "uint16 \<Rightarrow> byte" where
  "typeOf tc = ucast (drop_bit 8 tc)"

definition codeOf :: "uint16 \<Rightarrow> byte" where
  "codeOf tc = ucast tc"

text \<open>
  What the reader task needs from outside: \<open>net.InterfaceByIndex\<close> (the name of the
  interface or an error text), the layers \<open>gopacket.NewPacket\<close> decodes from a packet that
  starts with Ethernet framing, the text of an address (\<open>net.IP.String\<close>) and the text
  \<open>%q\<close> prints for an error.
\<close>

record event_env =
  InterfaceByIndex :: "int \<Rightarrow> string + string"
  NewPacket :: "byte list \<Rightarrow> layer list"
  ipString :: "byte list \<Rightarrow> string"
  quoted :: "string \<Rightarrow> string"

text \<open>
  A line of output: \<open>Printf\<close> is a line of the standard logger (\<open>log.Printf\<close>), \<open>Info\<close> a
  line of the audit log (\<open>eventsLogger.Info\<close>).
\<close>

datatype out_line = Printf string | Info string

definition io_error_text :: "io_error \<Rightarrow> string" where
  "io_error_text e = (case e of EOF \<Rightarrow> ''EOF'' | ErrUnexpectedEOF \<Rightarrow> ''unexpected EOF'')"

definition tab :: string where
  "tab = [CHR 0x09]"

definition newline :: string where
  "newline = [CHR 0x0A]"

definition portsLine :: "string \<Rightarrow> uint16 \<times> uint16 \<Rightarrow> out_line" where
  "portsLine proto p =
     Info (tab @ proto @ '' srcPort '' @ showNat (unat (fst p)) @
           '' dstPort '' @ showNat (unat (snd p)) @ newline)"

definition addrLine :: "event_env \<Rightarrow> string \<Rightarrow> byte list \<times> byte list \<Rightarrow> out_line" where
  "addrLine env proto a =
     Info (tab @ proto @ '' src addr '' @ ipString env (fst a) @
           '' dst addr '' @ ipString env (snd a) @ newline)"

definition icmpLine :: "string \<Rightarrow> uint16 \<Rightarrow> out_line" where
  "icmpLine proto tc =
     Info (tab @ proto @ '' type '' @ showNat (unat (typeOf tc)) @
           '' code '' @ showNat (unat (codeOf tc)) @ newline)"

definition optLine :: "'a option \<Rightarrow> ('a \<Rightarrow> out_line) \<Rightarrow> out_line list" where
  "optLine layer line = (case layer of None \<Rightarrow> [] | Some l \<Rightarrow> [line l])"

text \<open>The seven checks on the decoded packet, in the order of the code.\<close>

definition layerLines :: "event_env \<Rightarrow> layer list \<Rightarrow> out_line list" where
  "layerLines env decodePacket =
     optLine (layerIPv4 decodePacket) (addrLine env ''ipv4'') @
     optLine (layerIPv6 decodePacket) (addrLine env ''ipv6'') @
     optLine (layerTCP decodePacket) (portsLine ''tcp'') @
     optLine (layerUDP decodePacket) (portsLine ''udp'') @
     optLine (layerSCTP decodePacket) (portsLine ''sctp'') @
     optLine (layerICMPv4 decodePacket) (icmpLine ''icmpv4'') @
     optLine (layerICMPv6 decodePacket) (icmpLine ''icmpv6'')"

definition summaryLine :: "BpfEventHdrSt \<Rightarrow> string \<Rightarrow> out_line" where
  "summaryLine eventHdr name =
     Info (''ruleId '' @ showNat (unat (hdrRuleId eventHdr)) @
           '' action '' @ convertXdpActionToString (hdrAction eventHdr) @
           '' len '' @ showNat (unat (PktLength eventHdr)) @
           '' if '' @ name @ newline)"

definition droppedLine :: "uint64 \<Rightarrow> out_line" where
  "droppedLine n =
     Printf (''Perf event ring buffer full, dropped '' @ showNat (unat n) @ '' samples'')"

text \<open>The body of the loop for one record that was read.\<close>

definition handleRecord :: "event_env \<Rightarrow> perf_record \<Rightarrow> out_line list" where
  "handleRecord env record =
     (if LostSamples record \<noteq> 0 then [droppedLine (LostSamples record)]
      else
        (case decodeEvent (RawSample record) of
           Inl (HeaderError err) \<Rightarrow>
             [Printf (''Parsing perf event header err: '' @ io_error_text err)]
         | Inl (PacketError err) \<Rightarrow>
             [Printf (''Parsing perf event packet header : '' @ io_error_text err)]
         | Inr (eventHdr, packet) \<Rightarrow>
             (case InterfaceByIndex env (uint (IfId eventHdr)) of
                Inl err \<Rightarrow>
                  [Printf (''lookup network iface '' @ showNat (unat (IfId eventHdr)) @
                           '': '' @ err)]
              | Inr name \<Rightarrow>
                  summaryLine eventHdr name # layerLines env (NewPacket env packet))))"

text \<open>
  The loop of the reader task over the results of \<open>rd.Read()\<close>, in the order they arrive:
  the closed reader ends the task, any other error is logged and the loop goes on.
  The result is the output written for these reads.
\<close>

fun readerLoop :: "event_env \<Rightarrow> read_result list \<Rightarrow> out_line list" where
  "readerLoop env [] = []"
| "readerLoop env (ReadClosed # rest) = []"
| "readerLoop env (ReadError err # rest) =
     Printf (''Reading from perf event reader: '' @ quoted env err) # readerLoop env rest"
| "readerLoop env (ReadRecord record # rest) = handleRecord env record @ readerLoop env rest"

text \<open>The lines of the audit log among the output.\<close>

fun is_audit :: "out_line \<Rightarrow> bool" where
  "is_audit (Info s) = True"
| "is_audit (Printf s) = False"

text \<open>
  A packet of Ethernet framing that carries IPv4 and TCP: the Ethernet layer, the IPv4
  layer, the TCP layer, and the payload (if any) after them.
\<close>

fun is_payload :: "layer \<Rightarrow> bool" where
  "is_payload LayerPayload = True"
| "is_payload l = False"

definition ethernet_ipv4_tcp ::
  "layer list \<Rightarrow> byte list \<Rightarrow> byte list \<Rightarrow> uint16 \<Rightarrow> uint16 \<Rightarrow> bool" where
  "ethernet_ipv4_tcp ls src dst sport dport =
     (take 3 ls = [LayerEthernet, LayerIPv4 src dst, LayerTCP sport dport] \<and>
      list_all is_payload (drop 3 ls))"

subsection \<open>Example inputs of the event pipeline\<close>

text \<open>
  A node whose only interface is \<open>eth0\<close> with index 5, and a packet decoder that finds
  Ethernet, IPv4 and TCP in every packet of at least 54 bytes; addresses are printed as
  the decimal bytes between dots.
\<close>

fun dotted :: "byte list \<Rightarrow> string" where
  "dotted [] = []"
| "dotted [b] = showNat (unat b)"
| "dotted (b # bs) = showNat (unat b) @ ''.'' @ dotted bs"

definition eth0Env :: event_env where
  "eth0Env =
     \<lparr>InterfaceByIndex = (\<lambda>i. if i = 5 then Inr ''eth0'' else Inl ''no such network interface''),
       NewPacket = (\<lambda>p.
         if 54 \<le> length p
         then [LayerEthernet, LayerIPv4 (take 4 (drop 26 p)) (take 4 (drop 30 p)),
               LayerTCP (ucast (p ! 34) * 256 + ucast (p ! 35)) (ucast (p ! 36) * 256 + ucast (p ! 37))]
         else [LayerEthernet, LayerPayload]),
       ipString = dotted,
       quoted = (\<lambda>s. [CHR 0x22] @ s @ [CHR 0x22])\<rparr>"

definition noIfaceEnv :: event_env where
  "noIfaceEnv = eth0Env\<lparr>InterfaceByIndex := (\<lambda>i. Inl ''no such network interface'')\<rparr>"

definition tcpPacket :: "byte list" where
  "tcpPacket =
     [0x52, 0x54, 0x00, 0x12, 0x34, 0x56, 0x52, 0x54, 0x00, 0xab, 0xcd, 0xef, 0x08, 0x00,
      0x45, 0x00, 0x00, 0x28, 0x00, 0x01, 0x00, 0x00, 0x40, 0x06, 0x00, 0x00,
      10, 0, 0, 1, 10, 0, 0, 2,
      0x30, 0x39, 0x00, 0x50, 0, 0, 0, 0, 0, 0, 0, 0, 0x50, 0x02, 0x20, 0x00,
      0x00, 0x00, 0x00, 0x00]"

definition denyEvent :: perf_record where
  "denyEvent = \<lparr>RawSample = [5, 0, 1, 0, 1, 0, 54, 0] @ tcpPacket, LostSamples = 0\<rparr>"

definition lostEvent :: perf_record where
  "lostEvent = \<lparr>RawSample = [], LostSamples = 3\<rparr>"

section \<open>Properties of the event pipeline\<close>

lemma le16_add:
  "(ucast (a::byte) OR push_bit 8 (ucast (b::byte)) :: uint16) = ucast a + push_bit 8 (ucast b)"
proof -
  have "\<And>n. \<not> bit (ucast a :: uint16) n \<or> \<not> bit (push_bit 8 (ucast b) :: uint16) n"
    by (auto simp: bit_simps dest: bit_imp_le_length)
  then show ?thesis by (rule disjunctive_add [symmetric])
qed

lemma unat_byte_less: "unat (a::byte) < 256"
  using unsigned_less [of a, where ?'a = nat] by simp

lemma unat_ucast_byte: "unat (ucast (a::byte) :: uint16) = unat a"
  using unat_byte_less [of a] by (simp add: unsigned_ucast_eq take_bit_nat_eq_self)

lemma unat_le16:
  "unat (ucast (a::byte) OR push_bit 8 (ucast (b::byte)) :: uint16) = unat a + 256 * unat b"
proof -
  have a: "unat a < 256" and b: "unat b < 256" by (rule unat_byte_less)+
  have "unat (push_bit 8 (ucast b) :: uint16) = (unat b * 256) mod 65536"
    by (simp add: push_bit_eq_mult unat_word_ariths unat_ucast_byte)
  with b have p: "unat (push_bit 8 (ucast b) :: uint16) = 256 * unat b" by simp
  have "unat (ucast a + push_bit 8 (ucast b) :: uint16) = (unat a + 256 * unat b) mod 65536"
    by (simp add: unat_word_ariths(1) p unat_ucast_byte)
  with a b show ?thesis by (simp add: le16_add)
qed

lemma unat_LittleEndian_Uint16:
  "unat (LittleEndian_Uint16 b) = unat (b ! 0) + 256 * unat (b ! 1)"
  by (simp add: LittleEndian_Uint16_def unat_le16)

lemma ReadFull_Inr:
  "ReadFull src n = Inr bs \<Longrightarrow> bs = take n src \<and> length bs = n \<and> n \<le> length src"
  by (auto simp: ReadFull_def split: if_splits)

lemma ReadFull_enough: "n \<le> length src \<Longrightarrow> ReadFull src n = Inr (take n src)"
  by (simp add: ReadFull_def)

lemma ReadFull_header_padding:
  "ReadFull (raw[5 := x]) 8 = map_sum id (\<lambda>buf. buf[5 := x]) (ReadFull raw 8)"
  by (simp add: ReadFull_def take_update_swap)

lemma LittleEndian_Uint16_take2: "LittleEndian_Uint16 (take 2 bs) = LittleEndian_Uint16 bs"
  by (simp add: LittleEndian_Uint16_def)

lemma decodeEvent_padding: "decodeEvent (raw[5 := x]) = decodeEvent raw"
proof (cases "ReadFull raw 8")
  case (Inl err)
  then show ?thesis
    by (simp add: decodeEvent_def eventHdrSize_def ReadFull_header_padding)
next
  case (Inr buf)
  have "drop 6 (buf[5 := x]) = drop 6 buf" "drop 2 (buf[5 := x]) = (drop 2 buf)[3 := x]"
    by (simp_all add: drop_update_cancel drop_update_swap)
  moreover have "drop 8 (raw[5 := x]) = drop 8 raw" by (simp add: drop_update_cancel)
  ultimately show ?thesis using Inr
    by (simp add: decodeEvent_def eventHdrSize_def ReadFull_header_padding
        LittleEndian_Uint16_take2 LittleEndian_Uint16_def)
qed

text \<open>
  Claim C1. The header of an event record is decoded from the first 8 bytes of the record,
  little-endian: the interface index from bytes 0 and 1, the rule id from bytes 2 and 3,
  the action from byte 4 and the packet length from bytes 6 and 7 (byte 5 is padding: its
  value changes nothing);
  the raw packet is exactly the \<open>packet length\<close> bytes that follow the header. A record
  that holds the header and that many bytes after it is decoded.
\<close>

theorem decodeEvent_layout:
  "(decodeEvent raw = Inr (eventHdr, packet) \<longrightarrow>
      unat (IfId eventHdr) = unat (raw ! 0) + 256 * unat (raw ! 1) \<and>
      unat (hdrRuleId eventHdr) = unat (raw ! 2) + 256 * unat (raw ! 3) \<and>
      hdrAction eventHdr = raw ! 4 \<and>
      unat (PktLength eventHdr) = unat (raw ! 6) + 256 * unat (raw ! 7) \<and>
      packet = take (unat (PktLength eventHdr)) (drop 8 raw) \<and>
      length packet = unat (PktLength eventHdr) \<and>
      8 + unat (PktLength eventHdr) \<le> length raw) \<and>
   (8 + (unat (raw ! 6) + 256 * unat (raw ! 7)) \<le> length raw \<longrightarrow>
      (\<exists>h p. decodeEvent raw = Inr (h, p))) \<and>
   decodeEvent (raw[5 := x]) = decodeEvent raw"
proof (intro conjI impI)
  assume d: "decodeEvent raw = Inr (eventHdr, packet)"
  then obtain buf where buf: "ReadFull raw 8 = Inr buf"
    by (auto simp: decodeEvent_def eventHdrSize_def split: sum.splits)
  from ReadFull_Inr [OF buf] have b: "buf = take 8 raw" and l: "8 \<le> length raw" by simp_all
  from d buf have h: "eventHdr = \<lparr>IfId = LittleEndian_Uint16 (take 2 buf),
                           hdrRuleId = LittleEndian_Uint16 (take 2 (drop 2 buf)),
                           hdrAction = buf ! 4,
                           PktLength = LittleEndian_Uint16 (take 2 (drop 6 buf))\<rparr>"
    and p: "ReadFull (drop 8 raw) (unat (PktLength eventHdr)) = Inr packet"
    by (auto simp: decodeEvent_def eventHdrSize_def Let_def split: sum.splits)
  from h b l show "unat (IfId eventHdr) = unat (raw ! 0) + 256 * unat (raw ! 1)"
    by (simp add: unat_LittleEndian_Uint16)
  from h b l show "unat (hdrRuleId eventHdr) = unat (raw ! 2) + 256 * unat (raw ! 3)"
    by (simp add: unat_LittleEndian_Uint16)
  from h b l show "hdrAction eventHdr = raw ! 4" by simp
  from h b l show "unat (PktLength eventHdr) = unat (raw ! 6) + 256 * unat (raw ! 7)"
    by (simp add: unat_LittleEndian_Uint16)
  from ReadFull_Inr [OF p] show "packet = take (unat (PktLength eventHdr)) (drop 8 raw)"
    by simp
  from ReadFull_Inr [OF p] show "length packet = unat (PktLength eventHdr)" by simp
  from ReadFull_Inr [OF p] have "unat (PktLength eventHdr) \<le> length raw - 8" by simp
  with l show "8 + unat (PktLength eventHdr) \<le> length raw" by arith
next
  assume e: "8 + (unat (raw ! 6) + 256 * unat (raw ! 7)) \<le> length raw"
  then have l: "8 \<le> length raw" by simp
  then have buf: "ReadFull raw 8 = Inr (take 8 raw)" by (rule ReadFull_enough)
  from l have "unat (LittleEndian_Uint16 (take 2 (drop 6 (take 8 raw)))) =
      unat (raw ! 6) + 256 * unat (raw ! 7)"
    by (simp add: unat_LittleEndian_Uint16)
  with e have "unat (LittleEndian_Uint16 (take 2 (drop 6 (take 8 raw)))) \<le> length (drop 8 raw)"
    by simp
  from ReadFull_enough [OF this] buf show "\<exists>h p. decodeEvent raw = Inr (h, p)"
    by (simp add: decodeEvent_def eventHdrSize_def Let_def)
next
  show "decodeEvent (raw[5 := x]) = decodeEvent raw"
    by (rule decodeEvent_padding)
qed

theorem decodeEvent_layout_witness:
  "decodeEvent ([5, 0, 1, 0, 1, 0, 54, 0] @ tcpPacket) =
     Inr (\<lparr>IfId = 5, hdrRuleId = 1, hdrAction = 1, PktLength = 54\<rparr>, tcpPacket) \<and>
   8 + (unat (([5, 0, 1, 0, 1, 0, 54, 0] @ tcpPacket) ! 6) +
        256 * unat (([5, 0, 1, 0, 1, 0, 54, 0] @ tcpPacket) ! 7))
     \<le> length ([5, 0, 1, 0, 1, 0, 54, 0] @ tcpPacket)"
  using decodeEvent_layout [of "[5, 0, 1, 0, 1, 0, 54, 0] @ tcpPacket"
      "\<lparr>IfId = 5, hdrRuleId = 1, hdrAction = 1, PktLength = 54\<rparr>" tcpPacket]
  by (simp add: decodeEvent_def LittleEndian_Uint16_def ReadFull_def eventHdrSize_def
      tcpPacket_def)

text \<open>
  Claim C8. For a record whose count of lost samples is not zero the reader task writes
  exactly one line, \<open>dropped N samples\<close>, to the log and no line to the audit log; the
  record is not decoded and the loop goes on with the next read.
\<close>

theorem lost_samples_record:
  assumes "LostSamples record \<noteq> 0"
  shows "handleRecord env record =
           [Printf (''Perf event ring buffer full, dropped '' @
                    showNat (unat (LostSamples record)) @ '' samples'')] \<and>
         filter is_audit (handleRecord env record) = [] \<and>
         readerLoop env (ReadRecord record # rest) =
           Printf (''Perf event ring buffer full, dropped '' @
                   showNat (unat (LostSamples record)) @ '' samples'') # readerLoop env rest"
  using assms by (simp add: handleRecord_def droppedLine_def)

theorem lost_samples_record_witness:
  "LostSamples lostEvent \<noteq> 0 \<and>
   handleRecord eth0Env lostEvent = [Printf ''Perf event ring buffer full, dropped 3 samples''] \<and>
   readerLoop eth0Env [ReadRecord lostEvent, ReadRecord denyEvent] =
     [Printf ''Perf event ring buffer full, dropped 3 samples'',
      Info (''ruleId 1 action Drop len 54 if eth0'' @ newline),
      Info (tab @ ''ipv4 src addr 10.0.0.1 dst addr 10.0.0.2'' @ newline),
      Info (tab @ ''tcp srcPort 12345 dstPort 80'' @ newline)]"
  using lost_samples_record [of lostEvent eth0Env "[ReadRecord denyEvent]"]
  by (simp add: decodeEvent_def LittleEndian_Uint16_def ReadFull_def eventHdrSize_def
      showNat.simps digitChar_def convertXdpActionToString_def xdpDeny_def xdpAllow_def
      tab_def newline_def portsLine_def addrLine_def optLine_def layerLines_def
      summaryLine_def droppedLine_def handleRecord_def eth0Env_def tcpPacket_def
      denyEvent_def lostEvent_def)

lemma payload_no_layers:
  "list_all is_payload ls \<Longrightarrow>
   layerIPv4 ls = None \<and> layerIPv6 ls = None \<and> layerTCP ls = None \<and> layerUDP ls = None \<and>
   layerSCTP ls = None \<and> layerICMPv4 ls = None \<and> layerICMPv6 ls = None"
proof (induction ls)
  case Nil
  show ?case by simp
next
  case (Cons l ls)
  then show ?case by (cases l) simp_all
qed

lemma layerLines_ethernet_ipv4_tcp:
  assumes "ethernet_ipv4_tcp ls src dst sport dport"
  shows "layerLines env ls = [addrLine env ''ipv4'' (src, dst), portsLine ''tcp'' (sport, dport)]"
proof -
  from assms have t: "take 3 ls = [LayerEthernet, LayerIPv4 src dst, LayerTCP sport dport]"
    and p: "list_all is_payload (drop 3 ls)"
    by (simp_all add: ethernet_ipv4_tcp_def)
  define rest where "rest = drop 3 ls"
  have "ls = take 3 ls @ drop 3 ls" by simp
  also have "\<dots> = [LayerEthernet, LayerIPv4 src dst, LayerTCP sport dport] @ rest"
    by (simp only: t rest_def)
  finally have ls: "ls = LayerEthernet # LayerIPv4 src dst # LayerTCP sport dport # rest"
    by simp
  from p have "list_all is_payload rest" by (simp only: rest_def)
  from payload_no_layers [OF this] show ?thesis
    unfolding ls by (simp add: layerLines_def optLine_def)
qed

text \<open>
  Claim C9, as the code has it. For an event record with a decodable header whose
  interface index resolves to an interface and whose raw packet decodes as Ethernet
  framing carrying IPv4 and TCP, the output is exactly three audit lines in this order:
  the summary line (rule id, action name, packet length, interface name), the line of the
  IPv4 source and destination addresses, and the line of the TCP source and destination
  ports.
\<close>

theorem ethernet_ipv4_tcp_event:
  assumes "LostSamples record = 0"
    and "decodeEvent (RawSample record) = Inr (eventHdr, packet)"
    and "InterfaceByIndex env (uint (IfId eventHdr)) = Inr name"
    and "ethernet_ipv4_tcp (NewPacket env packet) src dst sport dport"
  shows "handleRecord env record =
           [summaryLine eventHdr name, addrLine env ''ipv4'' (src, dst),
            portsLine ''tcp'' (sport, dport)]"
  using assms(1-3) layerLines_ethernet_ipv4_tcp [OF assms(4), of env]
  by (simp add: handleRecord_def)

theorem ethernet_ipv4_tcp_event_witness:
  "LostSamples denyEvent = 0 \<and>
   decodeEvent (RawSample denyEvent) =
     Inr (\<lparr>IfId = 5, hdrRuleId = 1, hdrAction = 1, PktLength = 54\<rparr>, tcpPacket) \<and>
   InterfaceByIndex eth0Env 5 = Inr ''eth0'' \<and>
   ethernet_ipv4_tcp (NewPacket eth0Env tcpPacket) [10, 0, 0, 1] [10, 0, 0, 2] 12345 80 \<and>
   handleRecord eth0Env denyEvent =
     [Info (''ruleId 1 action Drop len 54 if eth0'' @ newline),
      Info (tab @ ''ipv4 src addr 10.0.0.1 dst addr 10.0.0.2'' @ newline),
      Info (tab @ ''tcp srcPort 12345 dstPort 80'' @ newline)]"
  using ethernet_ipv4_tcp_event [of denyEvent
      "\<lparr>IfId = 5, hdrRuleId = 1, hdrAction = 1, PktLength = 54\<rparr>" tcpPacket
      eth0Env "''eth0''" "[10, 0, 0, 1]" "[10, 0, 0, 2]" 12345 80]
  by (simp add: decodeEvent_def LittleEndian_Uint16_def ReadFull_def eventHdrSize_def
      showNat.simps digitChar_def convertXdpActionToString_def xdpDeny_def xdpAllow_def
      tab_def newline_def portsLine_def addrLine_def optLine_def layerLines_def
      summaryLine_def droppedLine_def handleRecord_def ethernet_ipv4_tcp_def eth0Env_def
      tcpPacket_def denyEvent_def)

theorem ethernet_ipv4_tcp_event_counterexample:
  "LostSamples denyEvent = 0 \<and>
   decodeEvent (RawSample denyEvent) =
     Inr (\<lparr>IfId = 5, hdrRuleId = 1, hdrAction = 1, PktLength = 54\<rparr>, tcpPacket) \<and>
   ethernet_ipv4_tcp (NewPacket noIfaceEnv tcpPacket) [10, 0, 0, 1] [10, 0, 0, 2] 12345 80 \<and>
   handleRecord noIfaceEnv denyEvent =
     [Printf ''lookup network iface 5: no such network interface''] \<and>
   filter is_audit (handleRecord noIfaceEnv denyEvent) = []"
  by (simp add: decodeEvent_def LittleEndian_Uint16_def ReadFull_def eventHdrSize_def
      showNat.simps digitChar_def convertXdpActionToString_def xdpDeny_def xdpAllow_def
      tab_def newline_def portsLine_def addrLine_def optLine_def layerLines_def
      summaryLine_def droppedLine_def handleRecord_def ethernet_ipv4_tcp_def eth0Env_def
      noIfaceEnv_def tcpPacket_def denyEvent_def)

section \<open>Properties of the port texts\<close>

lemma is_digit_iff: "is_digit c \<longleftrightarrow> 48 \<le> (of_char c :: nat) \<and> (of_char c :: nat) \<le> 57"
proof
  assume "is_digit c"
  then show "48 \<le> (of_char c :: nat) \<and> (of_char c :: nat) \<le> 57"
    by (auto simp: is_digit_def)
next
  assume a: "48 \<le> (of_char c :: nat) \<and> (of_char c :: nat) \<le> 57"
  then have "(of_char c :: nat) \<in> of_char ` set ''0123456789''"
    by simp arith
  then have "c \<in> set ''0123456789''"
    by (auto simp only: of_char_eq_iff)
  then show "is_digit c"
    by (simp only: is_digit_def)
qed

lemma digitVal_digit: "is_digit c \<Longrightarrow> digitVal c = Inr (of_char c - 48)"
  by (auto simp: is_digit_def digitVal_def)

lemma digitVal_Inr: "digitVal c = Inr d \<Longrightarrow> is_digit c \<and> d = of_char c - 48"
  by (auto simp: digitVal_def Let_def is_digit_iff split: if_splits)

lemma foldl_dec_ge: "(n::nat) \<le> foldl (\<lambda>n c. 10 * n + (of_char c - 48)) n s"
proof (induction s arbitrary: n)
  case Nil
  show ?case by simp
next
  case (Cons c cs)
  have "n \<le> 10 * n + (of_char c - 48)" by simp
  also have "\<dots> \<le> foldl (\<lambda>n c. 10 * n + (of_char c - 48)) (10 * n + (of_char c - 48)) cs"
    by (rule Cons.IH)
  finally show ?case by simp
qed

lemma parseUintLoop_digits:
  "list_all is_digit s \<Longrightarrow> n \<le> 65535 \<Longrightarrow>
   parseUintLoop n s =
     (if foldl (\<lambda>n c. 10 * n + (of_char c - 48)) n s \<le> 65535
      then Inr (foldl (\<lambda>n c. 10 * n + (of_char c - 48)) n s) else Inl ErrRange)"
proof (induction s arbitrary: n)
  case Nil
  then show ?case by simp
next
  case (Cons c cs)
  let ?n1 = "10 * n + (of_char c - 48)"
  from Cons.prems have dc: "digitVal c = Inr (of_char c - 48)" and cs: "list_all is_digit cs"
    by (simp_all add: digitVal_digit)
  show ?case
  proof (cases "?n1 \<le> 65535")
    case True
    with Cons.IH [OF cs True] Cons.prems(2) dc show ?thesis
      by (simp add: cutoff_def maxVal_def mult.commute)
  next
    case False
    moreover have "?n1 \<le> foldl (\<lambda>n c. 10 * n + (of_char c - 48)) ?n1 cs"
      by (rule foldl_dec_ge)
    ultimately show ?thesis using Cons.prems(2) dc
      by (simp add: cutoff_def maxVal_def mult.commute)
  qed
qed

lemma parseUintLoop_Inr: "parseUintLoop n s = Inr v \<Longrightarrow> list_all is_digit s"
proof (induction s arbitrary: n)
  case Nil
  show ?case by simp
next
  case (Cons c cs)
  then show ?case
    by (auto simp: Let_def split: sum.splits if_splits dest: digitVal_Inr)
qed

lemma ParseUint_port_text:
  "port_text s \<Longrightarrow> ParseUint s = Inr (decimal_value s)"
  by (simp add: port_text_def decimal_integer_def ParseUint_def parseUintLoop_digits decimal_value_def)

lemma ParseUint_Inr: "ParseUint s = Inr v \<Longrightarrow> port_text s"
proof -
  assume a: "ParseUint s = Inr v"
  then have ne: "s \<noteq> []" and l: "parseUintLoop 0 s = Inr v"
    by (auto simp: ParseUint_def split: if_splits)
  from l have d: "list_all is_digit s" by (rule parseUintLoop_Inr)
  from l parseUintLoop_digits [OF d, of 0] have "decimal_value s \<le> 65535"
    by (auto simp: decimal_value_def split: if_splits)
  with ne d show ?thesis by (simp add: port_text_def decimal_integer_def)
qed

lemma port_text_no_hyphen: "port_text s \<Longrightarrow> CHR ''-'' \<notin> set s"
proof
  assume p: "port_text s" and h: "CHR ''-'' \<in> set s"
  have "\<not> is_digit CHR ''-''" by (simp add: is_digit_def)
  moreover from p h have "is_digit CHR ''-''"
    by (simp add: port_text_def decimal_integer_def list_all_iff)
  ultimately show False by simp
qed

lemma SplitN2_hyphen:
  "CHR ''-'' \<notin> set a \<Longrightarrow> SplitN2 (a @ CHR ''-'' # b) = [a, b]"
proof -
  assume a: "CHR ''-'' \<notin> set a"
  then have "dropWhile (\<lambda>c. c \<noteq> CHR ''-'') (a @ CHR ''-'' # b) = CHR ''-'' # b"
    by (induction a) auto
  moreover from a have "takeWhile (\<lambda>c. c \<noteq> CHR ''-'') (a @ CHR ''-'' # b) = a"
    by (induction a) auto
  ultimately show ?thesis by (simp add: SplitN2_def)
qed

lemma SplitN2_contains:
  "CHR ''-'' \<in> set s \<Longrightarrow>
   \<exists>a b. s = a @ CHR ''-'' # b \<and> CHR ''-'' \<notin> set a \<and> SplitN2 s = [a, b]"
proof -
  assume "CHR ''-'' \<in> set s"
  then obtain a b where "s = a @ CHR ''-'' # b" "CHR ''-'' \<notin> set a"
    by (auto dest: split_list_first)
  then show ?thesis using SplitN2_hyphen by blast
qed

lemma unat_port: "v \<le> 65535 \<Longrightarrow> unat (word_of_nat v :: uint16) = v"
  by (simp add: unat_of_nat)

text \<open>
  Claim C2. A port text without hyphen that is a decimal integer \<open>N\<close> with
  \<open>0 \<le> N \<le> 65535\<close> parses to \<open>(N, 0)\<close>; a text \<open>N-M\<close> with both decimal integers in
  that range parses to \<open>(N, M)\<close>; every other text (not a number, out of range, or with a
  separator in the wrong place) is rejected with an error.
\<close>

theorem parseDstPorts_spec:
  "(port_text s \<longrightarrow>
      (\<exists>p. parseDstPorts s = Inr (p, 0) \<and> unat p = decimal_value s)) \<and>
   (port_text a \<and> port_text b \<longrightarrow>
      (\<exists>p q. parseDstPorts (a @ ''-'' @ b) = Inr (p, q) \<and>
         unat p = decimal_value a \<and> unat q = decimal_value b)) \<and>
   (\<not> port_text s \<and> (\<nexists>a b. s = a @ ''-'' @ b \<and> port_text a \<and> port_text b) \<longrightarrow>
      (\<exists>e. parseDstPorts s = Inl e))"
proof (intro conjI impI)
  assume p: "port_text s"
  then have "decimal_value s \<le> 65535" by (simp add: port_text_def)
  with p show "\<exists>p. parseDstPorts s = Inr (p, 0) \<and> unat p = decimal_value s"
    by (simp add: parseDstPorts_def containsHyphen_def port_text_no_hyphen
        ParseUint_port_text unat_port)
next
  assume ab: "port_text a \<and> port_text b"
  then have "decimal_value a \<le> 65535" "decimal_value b \<le> 65535"
    by (simp_all add: port_text_def)
  moreover from ab have "SplitN2 (a @ ''-'' @ b) = [a, b]"
    by (simp add: SplitN2_hyphen port_text_no_hyphen)
  ultimately show "\<exists>p q. parseDstPorts (a @ ''-'' @ b) = Inr (p, q) \<and>
         unat p = decimal_value a \<and> unat q = decimal_value b"
    using ab by (simp add: parseDstPorts_def containsHyphen_def ParseUint_port_text unat_port)
next
  assume n: "\<not> port_text s \<and> (\<nexists>a b. s = a @ ''-'' @ b \<and> port_text a \<and> port_text b)"
  show "\<exists>e. parseDstPorts s = Inl e"
  proof (cases "CHR ''-'' \<in> set s")
    case False
    from n have "\<And>v. ParseUint s \<noteq> Inr v" using ParseUint_Inr by blast
    with False show ?thesis
      by (auto simp: parseDstPorts_def containsHyphen_def split: sum.splits)
  next
    case True
    then obtain a b where s: "s = a @ CHR ''-'' # b" and sp: "SplitN2 s = [a, b]"
      using SplitN2_contains by blast
    from n s have "\<not> (port_text a \<and> port_text b)" by auto
    then have "(\<forall>v. ParseUint a \<noteq> Inr v) \<or> (\<forall>v. ParseUint b \<noteq> Inr v)"
      using ParseUint_Inr by blast
    with True sp show ?thesis
      by (auto simp: parseDstPorts_def containsHyphen_def split: sum.splits)
  qed
qed

theorem parseDstPorts_spec_witness:
  "port_text ''8080'' \<and> parseDstPorts ''8080'' = Inr (8080, 0) \<and>
   port_text ''80'' \<and> port_text ''443'' \<and> parseDstPorts ''80-443'' = Inr (80, 443) \<and>
   \<not> port_text ''65536'' \<and> parseDstPorts ''65536'' = Inl (InvalidPort ErrRange)"
proof -
  have n: "\<nexists>a b. ''65536'' = a @ ''-'' @ b \<and> port_text a \<and> port_text b"
  proof
    assume "\<exists>a b. ''65536'' = a @ ''-'' @ b \<and> port_text a \<and> port_text b"
    then obtain a b where "''65536'' = a @ ''-'' @ b" by blast
    then have "set ''65536'' = set (a @ ''-'' @ b)" by (rule arg_cong)
    then have "CHR ''-'' \<in> set ''65536''" by (simp only: set_append set_simps) blast
    then show False by simp
  qed
  show ?thesis
    using parseDstPorts_spec [of "''8080''" "''80''" "''443''"]
      parseDstPorts_spec [of "''65536''" "''80''" "''443''"] n
    by (simp add: port_text_def decimal_integer_def decimal_value_def is_digit_def
        parseDstPorts_def containsHyphen_def SplitN2_def ParseUint_def digitVal_def
        maxVal_def cutoff_def lower_def)
qed

section \<open>Properties of the rule compiler\<close>

text \<open>
  The compile call on one address range and one rule, with room for two rules: the table
  gets one entry, under the key of prefix length 8 and address 10.0.0.0.
\<close>

lemma makeIngressFwRulesMap_example:
  "makeIngressFwRulesMap listStoreEnv 2
     \<lparr>SourceCIDRs = [''10.0.0.0/8''], FirewallProtocolRules = [tcpRule]\<rparr> False [] =
   (let key = \<lparr>PrefixLen = 8, IpData = [10, 0, 0, 0, 0, 0, 0, 0, 0, 0, 0, 0, 0, 0, 0, 0]\<rparr>;
        val = \<lparr>NumRules = 1,
               Rules = [\<lparr>RuleId = 1, bpfProtocol = 6, DstPortStart = 80, DstPortEnd = 443,
                         IcmpType = 0, IcmpCode = 0, bpfAction = 2\<rparr>, zeroRule]\<rparr>
    in (Inr (), [(key, val)], [OpUpdate key val]))"
proof -
  have r12: "replicate 12 (0::byte) = [0, 0, 0, 0, 0, 0, 0, 0, 0, 0, 0, 0]"
    by (simp add: eval_nat_numeral)
  have r2: "replicate 2 zeroRule = [zeroRule, zeroRule]"
    by (simp add: eval_nat_numeral)
  show ?thesis
    by (simp add: makeIngressFwRulesMap_def r2 compileRule_def protocolEntry_def
        actionEntry_def portsEntry_def zeroKey_def makeKey_def To4_def copy_def r12
        parseDstPorts_def containsHyphen_def SplitN2_def ParseUint_def digitVal_def
        maxVal_def cutoff_def lower_def IPPROTO_TCP_def xdpAllow_def listStoreEnv_def
        tcpRule_def Let_def)
       (simp add: zeroRule_def)
qed

lemma compileRule_invalid:
  "invalid_rule r \<Longrightarrow>
   \<exists>err. compileRule r e = Inl err \<and> returned_error (Inl err :: compile_error + unit)"
  by (auto simp: invalid_rule_def unknown_protocol_def unknown_action_def unparseable_ports_def
      carries_ports_def compileRule_def protocolEntry_def actionEntry_def portsEntry_def isl_def
      split: protocol_type.splits action_type.splits sum.splits)

lemma compileRule_valid: "\<not> invalid_rule r \<Longrightarrow> \<exists>e'. compileRule r e = Inr e'"
  by (auto simp: invalid_rule_def unknown_protocol_def unknown_action_def unparseable_ports_def
      carries_ports_def compileRule_def protocolEntry_def actionEntry_def portsEntry_def isl_def
      split: protocol_type.splits action_type.splits sum.splits)

text \<open>Valid rules that fit into the array are compiled one after the other.\<close>

lemma rulesLoop_valid_prefix:
  "list_all (\<lambda>r. \<not> invalid_rule r) pre \<Longrightarrow> idx + length pre \<le> length (Rules rules) \<Longrightarrow>
   \<exists>rules'. length (Rules rules') = length (Rules rules) \<and>
     (\<forall>rest. rulesLoop idx (pre @ rest) rules = rulesLoop (idx + length pre) rest rules')"
proof (induction pre arbitrary: idx rules)
  case Nil
  then show ?case by auto
next
  case (Cons r pre)
  from Cons.prems(1) obtain e where e: "compileRule r (Rules rules ! idx) = Inr e"
    using compileRule_valid by fastforce
  let ?rules1 = "rules\<lparr>Rules := (Rules rules)[idx := e]\<rparr>"
  from Cons.prems have "list_all (\<lambda>r. \<not> invalid_rule r) pre"
    and "Suc idx + length pre \<le> length (Rules ?rules1)"
    by simp_all
  from Cons.IH [OF this] obtain rules' where
    l: "length (Rules rules') = length (Rules ?rules1)" and
    s: "\<And>rest. rulesLoop (Suc idx) (pre @ rest) ?rules1 = rulesLoop (Suc idx + length pre) rest rules'"
    by blast
  from Cons.prems(2) have "\<not> idx \<ge> length (Rules rules)" by simp
  with e s l show ?case by (intro exI [of _ rules']) simp
qed

lemma rulesLoop_first_invalid:
  assumes "list_all (\<lambda>r. \<not> invalid_rule r) pre" and "invalid_rule bad"
    and "length pre < length (Rules rules)"
  shows "\<exists>err. rulesLoop 0 (pre @ bad # post) rules = Inl err \<and>
           returned_error (Inl err :: compile_error + unit)"
proof -
  from assms(3) have "0 + length pre \<le> length (Rules rules)" by simp
  from rulesLoop_valid_prefix [OF assms(1) this] obtain rules' where
    l: "length (Rules rules') = length (Rules rules)" and
    s: "rulesLoop 0 (pre @ bad # post) rules = rulesLoop (length pre) (bad # post) rules'"
    by auto
  from compileRule_invalid [OF assms(2)] obtain err where
    "compileRule bad (Rules rules' ! length pre) = Inl err"
    "returned_error (Inl err :: compile_error + unit)"
    by blast
  with s l assms(3) show ?thesis by simp
qed

lemma rulesLoop_overflow:
  assumes "list_all (\<lambda>r. \<not> invalid_rule r) pre" and "length pre = length (Rules rules)"
  shows "rulesLoop 0 (pre @ r # post) rules =
           Inl (PanicIndexOutOfRange (length (Rules rules)) (length (Rules rules)))"
proof -
  from assms(2) have "0 + length pre \<le> length (Rules rules)" by simp
  from rulesLoop_valid_prefix [OF assms(1) this] obtain rules' where
    l: "length (Rules rules') = length (Rules rules)" and
    s: "rulesLoop 0 (pre @ r # post) rules = rulesLoop (length pre) (r # post) rules'"
    by auto
  with assms(2) show ?thesis by simp
qed

text \<open>
  A rule that the compiler rejects, standing below the capacity of the rule array behind
  valid rules: the call returns the error of that rule and issues no table operation.
\<close>

lemma makeIngressFwRulesMap_rejects_below_capacity:
  assumes "FirewallProtocolRules cfg = pre @ bad # post"
    and "list_all (\<lambda>r. \<not> invalid_rule r) pre" and "invalid_rule bad"
    and "length pre < cap"
  shows "\<exists>err. makeIngressFwRulesMap env cap cfg isDelete store = (Inl err, store, []) \<and>
           returned_error (Inl err :: compile_error + unit) \<and>
           (\<exists>e. compileRule bad e = Inl err)"
proof -
  define rules0 where "rules0 =
    \<lparr>NumRules = word_of_nat (length (FirewallProtocolRules cfg)), Rules = replicate cap zeroRule\<rparr>"
  have n: "length (Rules rules0) = cap" by (simp add: rules0_def)
  with assms(4) have "0 + length pre \<le> length (Rules rules0)" by simp
  from rulesLoop_valid_prefix [OF assms(2) this] obtain rules' where
    l: "length (Rules rules') = length (Rules rules0)" and
    s: "rulesLoop 0 (pre @ bad # post) rules0 = rulesLoop (length pre) (bad # post) rules'"
    by auto
  from compileRule_invalid [OF assms(3)] obtain err where
    e: "compileRule bad (Rules rules' ! length pre) = Inl err"
       "returned_error (Inl err :: compile_error + unit)"
    by blast
  with s l n assms(4) have "rulesLoop 0 (pre @ bad # post) rules0 = Inl err" by simp
  with assms(1) have "makeIngressFwRulesMap env cap cfg isDelete store = (Inl err, store, [])"
    by (simp add: makeIngressFwRulesMap_def rules0_def)
  with e show ?thesis by blast
qed

text \<open>
  As many valid rules as the rule array holds, and one more rule of any kind: the write to
  \<open>rules.Rules[idx]\<close> for that rule is out of range, whatever the capacity is. The call ends
  with the panic before it looks at the rule and before any table operation.
\<close>

lemma makeIngressFwRulesMap_panics_at_capacity:
  assumes "FirewallProtocolRules cfg = pre @ r # post"
    and "list_all (\<lambda>r. \<not> invalid_rule r) pre" and "length pre = cap"
  shows "makeIngressFwRulesMap env cap cfg isDelete store =
           (Inl (PanicIndexOutOfRange cap cap), store, [])"
proof -
  define rules0 where "rules0 =
    \<lparr>NumRules = word_of_nat (length (FirewallProtocolRules cfg)), Rules = replicate cap zeroRule\<rparr>"
  have n: "length (Rules rules0) = cap" by (simp add: rules0_def)
  with assms(3) have "length pre = length (Rules rules0)" by simp
  from rulesLoop_overflow [OF assms(2) this, of r post] n assms(1)
  show ?thesis
    by (simp add: makeIngressFwRulesMap_def rules0_def)
qed

text \<open>
  Claim C3. A compile call on a rule set that contains a rule with an unknown protocol tag,
  an unknown action or an unparseable port text is to return an error and to leave the
  table alone. With room for two rules, the code does so for the rule of unknown protocol
  behind one valid rule (second equation). Behind two valid rules the same rule is never
  looked at: the write to \<open>rules.Rules[2]\<close> comes first and the call ends with Go's
  index-out-of-range panic, which is not a returned error (first equation). The table is
  untouched in both calls.
\<close>

theorem makeIngressFwRulesMap_invalid_rule_panics:
  "invalid_rule greRule \<and>
   makeIngressFwRulesMap listStoreEnv 2
     \<lparr>SourceCIDRs = [''10.0.0.0/8''], FirewallProtocolRules = [tcpRule, icmpRule, greRule]\<rparr>
     False []
   = (Inl (PanicIndexOutOfRange 2 2), [], []) \<and>
   \<not> returned_error (Inl (PanicIndexOutOfRange 2 2) :: compile_error + unit) \<and>
   makeIngressFwRulesMap listStoreEnv 2
     \<lparr>SourceCIDRs = [''10.0.0.0/8''], FirewallProtocolRules = [tcpRule, greRule]\<rparr>
     False []
   = (Inl (InvalidProtocol (ProtocolTypeOther ''GRE'')), [], []) \<and>
   returned_error (Inl (InvalidProtocol (ProtocolTypeOther ''GRE'')) :: compile_error + unit)"
  by (simp add: makeIngressFwRulesMap_def compileRule_def protocolEntry_def actionEntry_def
      portsEntry_def icmpEntry_def zeroRule_def parseDstPorts_def containsHyphen_def
      SplitN2_def ParseUint_def digitVal_def maxVal_def cutoff_def lower_def
      invalid_rule_def unknown_protocol_def unknown_action_def unparseable_ports_def
      carries_ports_def listStoreEnv_def tcpRule_def icmpRule_def greRule_def)

text \<open>
  Claim C4. A rule set with more rules than the rule array holds is to be cut to the
  capacity without failing. The code has no bound on the index: with three valid rules
  and room for two, the call ends with the index-out-of-range panic at index 2, the
  table gets no entry and no table operation is issued. Nothing is truncated, and
  nothing is returned.
\<close>

theorem makeIngressFwRulesMap_too_many_rules_panics:
  "\<not> invalid_rule tcpRule \<and> \<not> invalid_rule icmpRule \<and> \<not> invalid_rule udpRule \<and>
   makeIngressFwRulesMap listStoreEnv 2
     \<lparr>SourceCIDRs = [''10.0.0.0/8''], FirewallProtocolRules = [tcpRule, icmpRule, udpRule]\<rparr>
     False []
   = (Inl (PanicIndexOutOfRange 2 2), [], []) \<and>
   \<not> returned_error (Inl (PanicIndexOutOfRange 2 2) :: compile_error + unit)"
  by (simp add: makeIngressFwRulesMap_def compileRule_def protocolEntry_def actionEntry_def
      portsEntry_def icmpEntry_def zeroRule_def parseDstPorts_def containsHyphen_def
      SplitN2_def ParseUint_def digitVal_def maxVal_def cutoff_def lower_def
      invalid_rule_def unknown_protocol_def unknown_action_def unparseable_ports_def
      carries_ports_def listStoreEnv_def tcpRule_def icmpRule_def udpRule_def)

section \<open>Properties of the attachment manager\<close>

lemma cleanupLinks_eq: "cleanupLinks ls tr = tr @ concat (map (\<lambda>l. [CallUnpin l, CallCloseLink l]) ls)"
  by (induction ls arbitrary: tr) auto

lemma cleanup_trace: "cleanup infc = infc\<lparr>trace := trace infc @ cleanup_calls (links infc)\<rparr>"
  by (simp add: cleanup_def cleanup_calls_def cleanupLinks_eq)

lemma cleanup_links [simp]: "links (cleanup infc) = links infc"
  by (simp add: cleanup_def)

lemma attachLoop_append:
  "attachLoop env d (xs @ ys) infc =
     (case attachLoop env d xs infc of
        (Inl e, infc') \<Rightarrow> (Inl e, infc')
      | (Inr u, infc') \<Rightarrow> attachLoop env d ys infc')"
  by (induction env d xs infc rule: attachLoop.induct)
     (auto simp: Let_def split: sum.splits option.splits)

lemma attachLoop_attach_ok:
  "attachLoop env False names infc = (Inr (), infc') \<Longrightarrow>
   \<exists>new tr. links infc' = links infc @ new \<and> length new = length names \<and>
     trace infc' = trace infc @ tr \<and> list_all (\<lambda>c. \<not> is_release c) tr \<and>
     list_all (\<lambda>l. \<exists>idx dir. CallAttachXDP idx l \<in> set tr \<and> CallPin l dir \<in> set tr) new \<and>
     pinPath infc' = pinPath infc"
proof (induction names arbitrary: infc)
  case Nil
  then show ?case by simp
next
  case (Cons n names)
  from Cons.prems obtain iface l where
    i: "InterfaceByName env n = Inr iface" and
    a: "AttachXDP env infc (ifIndex iface) = Inr l"
    by (auto split: sum.splits)
  let ?infc1 = "infc\<lparr>trace := trace infc @ [CallAttachXDP (ifIndex iface) l]\<rparr>"
  let ?dir = "pathJoin env (pinPath infc) (n @ ''_link'')"
  let ?infc2 = "?infc1\<lparr>trace := trace ?infc1 @ [CallPin l ?dir], links := links ?infc1 @ [l]\<rparr>"
  from Cons.prems i a have r: "attachLoop env False names ?infc2 = (Inr (), infc')"
    by (auto simp: Let_def split: option.splits)
  from Cons.IH [OF r] obtain new tr where
    "links infc' = links ?infc2 @ new" "length new = length names"
    "trace infc' = trace ?infc2 @ tr" "list_all (\<lambda>c. \<not> is_release c) tr"
    "list_all (\<lambda>l. \<exists>idx dir. CallAttachXDP idx l \<in> set tr \<and> CallPin l dir \<in> set tr) new"
    "pinPath infc' = pinPath ?infc2"
    by blast
  then show ?case
    by (intro exI [of _ "l # new"] exI [of _ "[CallAttachXDP (ifIndex iface) l, CallPin l ?dir] @ tr"])
       (auto simp: list_all_iff)
qed

text \<open>
  Claim C5. When an attach call (\<open>isDelete = false\<close>) reaches an interface name that does
  not resolve, it returns the lookup error of that name at once. The interfaces attached
  before it in the same call stay in the list \<open>links\<close>, one new link for each, and nothing
  is unpinned or closed. For a single name that does not resolve, the call returns the
  error and leaves the controller as it was (an empty list of links stays empty).
\<close>

theorem IngressNodeFwAttach_lookup_failure:
  assumes "IngressNodeFwAttach env pre False infc = (Inr (), infc')"
    and "InterfaceByName env bad = Inl err"
  shows "IngressNodeFwAttach env (pre @ bad # post) False infc = (Inl (LookupFailed bad err), infc') \<and>
         (\<exists>new tr. links infc' = links infc @ new \<and> length new = length pre \<and>
            trace infc' = trace infc @ tr \<and> list_all (\<lambda>c. \<not> is_release c) tr \<and>
            list_all (\<lambda>l. \<exists>idx dir. CallAttachXDP idx l \<in> set tr \<and> CallPin l dir \<in> set tr) new) \<and>
         IngressNodeFwAttach env [bad] False infc = (Inl (LookupFailed bad err), infc)"
proof (intro conjI)
  from assms show "IngressNodeFwAttach env (pre @ bad # post) False infc = (Inl (LookupFailed bad err), infc')"
    by (simp add: IngressNodeFwAttach_def attachLoop_append)
  from assms(1) attachLoop_attach_ok [of env pre infc infc']
  show "\<exists>new tr. links infc' = links infc @ new \<and> length new = length pre \<and>
            trace infc' = trace infc @ tr \<and> list_all (\<lambda>c. \<not> is_release c) tr \<and>
            list_all (\<lambda>l. \<exists>idx dir. CallAttachXDP idx l \<in> set tr \<and> CallPin l dir \<in> set tr) new"
    unfolding IngressNodeFwAttach_def by blast
  from assms(2) show "IngressNodeFwAttach env [bad] False infc = (Inl (LookupFailed bad err), infc)"
    by (simp add: IngressNodeFwAttach_def)
qed

theorem IngressNodeFwAttach_lookup_failure_witness:
  "IngressNodeFwAttach twoIfacesEnv [''eth0''] False emptyLoader =
     (Inr (), emptyLoader\<lparr>links := [Link 0],
        trace := [CallAttachXDP 2 (Link 0),
                  CallPin (Link 0) ''/sys/fs/bpf/xdp_ingress_node_firewall_process/eth0_link'']\<rparr>) \<and>
   InterfaceByName twoIfacesEnv ''nonexistent0'' = Inl ''no such network interface'' \<and>
   IngressNodeFwAttach twoIfacesEnv [''eth0'', ''nonexistent0'', ''eth1''] False emptyLoader =
     (Inl (LookupFailed ''nonexistent0'' ''no such network interface''),
      emptyLoader\<lparr>links := [Link 0],
        trace := [CallAttachXDP 2 (Link 0),
                  CallPin (Link 0) ''/sys/fs/bpf/xdp_ingress_node_firewall_process/eth0_link'']\<rparr>) \<and>
   IngressNodeFwAttach twoIfacesEnv [''nonexistent0''] False emptyLoader =
     (Inl (LookupFailed ''nonexistent0'' ''no such network interface''), emptyLoader) \<and>
   length (links emptyLoader) = 0"
  using IngressNodeFwAttach_lookup_failure [of twoIfacesEnv "[''eth0'']" emptyLoader
      "emptyLoader\<lparr>links := [Link 0],
        trace := [CallAttachXDP 2 (Link 0),
                  CallPin (Link 0) ''/sys/fs/bpf/xdp_ingress_node_firewall_process/eth0_link'']\<rparr>"
      "''nonexistent0''" "''no such network interface''" "[''eth1'']"]
  by (simp add: IngressNodeFwAttach_def cleanup_def twoIfacesEnv_def emptyLoader_def)

lemma cleanup_funpow_links: "links ((cleanup ^^ k) infc) = links infc"
  by (induction k) (simp_all add: cleanup_links)

lemma cleanup_funpow_pinPath: "pinPath ((cleanup ^^ k) infc) = pinPath infc"
  by (induction k) (simp_all add: cleanup_def)

lemma is_release_cleanup_calls: "list_all is_release (cleanup_calls ls)"
  by (induction ls) (simp_all add: cleanup_calls_def)

lemma cleanup_funpow_trace:
  "\<exists>tr. trace ((cleanup ^^ k) infc) = trace infc @ tr \<and> list_all is_release tr"
proof (induction k)
  case 0
  show ?case by simp
next
  case (Suc k)
  then obtain tr where t: "trace ((cleanup ^^ k) infc) = trace infc @ tr" "list_all is_release tr"
    by blast
  have "trace ((cleanup ^^ Suc k) infc) =
          trace infc @ (tr @ cleanup_calls (links ((cleanup ^^ k) infc)))"
    using t(1) by (simp add: cleanup_trace)
  moreover have "list_all is_release (tr @ cleanup_calls (links ((cleanup ^^ k) infc)))"
    using t(2) is_release_cleanup_calls by simp
  ultimately show ?case by blast
qed

text \<open>
  A detach call runs \<open>cleanup\<close> once for every name before the first one that does not
  resolve, and nothing else.
\<close>

lemma attachLoop_delete_state:
  "snd (attachLoop env True names infc) =
     (cleanup ^^ length (takeWhile (resolves env) names)) infc"
proof (induction names arbitrary: infc)
  case Nil
  show ?case by simp
next
  case (Cons n names)
  show ?case
  proof (cases "InterfaceByName env n")
    case (Inl err)
    then show ?thesis by (simp add: resolves_def)
  next
    case (Inr iface)
    then show ?thesis using Cons.IH [of "cleanup infc"]
      by (simp add: resolves_def funpow_swap1)
  qed
qed

lemma attachLoop_delete_error:
  "\<exists>n \<in> set names. \<not> resolves env n \<Longrightarrow>
   \<exists>n err. n \<in> set names \<and> InterfaceByName env n = Inl err \<and>
     fst (attachLoop env True names infc) = Inl (LookupFailed n err)"
proof (induction names arbitrary: infc)
  case Nil
  then show ?case by simp
next
  case (Cons n names)
  show ?case
  proof (cases "InterfaceByName env n")
    case (Inl err)
    then show ?thesis by auto
  next
    case (Inr iface)
    with Cons.prems have "\<exists>n \<in> set names. \<not> resolves env n" by (auto simp: resolves_def)
    from Cons.IH [OF this, of "cleanup infc"] Inr show ?thesis by auto
  qed
qed

lemma attachLoop_delete_ok:
  "\<forall>n \<in> set names. resolves env n \<Longrightarrow> fst (attachLoop env True names infc) = Inr ()"
  by (induction names arbitrary: infc) (auto simp: resolves_def split: sum.splits)

text \<open>
  Claim C10. On a detach call (\<open>isDelete = true\<close>) every name is resolved before anything
  is done for it, and the call returns the lookup error of a name that does not resolve;
  the only thing done is \<open>cleanup\<close>, once for each name before the first one that does not
  resolve: the list \<open>links\<close> stays as it was and the kernel is only asked to unpin and to
  close, never to attach a program or to pin a link.
\<close>

theorem IngressNodeFwAttach_detach_path:
  "((\<exists>n \<in> set names. \<not> resolves env n) \<longrightarrow>
      (\<exists>n err. n \<in> set names \<and> InterfaceByName env n = Inl err \<and>
         fst (IngressNodeFwAttach env names True infc) = Inl (LookupFailed n err))) \<and>
   snd (IngressNodeFwAttach env names True infc) =
     (cleanup ^^ length (takeWhile (resolves env) names)) infc \<and>
   links (snd (IngressNodeFwAttach env names True infc)) = links infc \<and>
   (\<exists>tr. trace (snd (IngressNodeFwAttach env names True infc)) = trace infc @ tr \<and>
      list_all is_release tr)"
  unfolding IngressNodeFwAttach_def
  using attachLoop_delete_error [of names env infc] cleanup_funpow_trace [of _ infc]
  by (simp add: attachLoop_delete_state cleanup_funpow_links)

theorem IngressNodeFwAttach_detach_path_witness:
  "\<not> resolves twoIfacesEnv ''nonexistent0'' \<and>
   IngressNodeFwAttach twoIfacesEnv [''eth1'', ''nonexistent0'', ''eth0''] True loaderWithLink =
     (Inl (LookupFailed ''nonexistent0'' ''no such network interface''),
      loaderWithLink\<lparr>trace := trace loaderWithLink @
         [CallUnpin (Link 0), CallCloseLink (Link 0), CallCloseObjs]\<rparr>)"
  using IngressNodeFwAttach_detach_path [of "[''eth1'', ''nonexistent0'', ''eth0'']"
      twoIfacesEnv loaderWithLink]
  by (simp add: IngressNodeFwAttach_def cleanup_def resolves_def twoIfacesEnv_def
      loaderWithLink_def)





text \<open>
  Claim C7, as the code has it. With an empty list \<open>links\<close>, \<open>cleanup\<close> unpins and closes no
  link and leaves the controller's fields as they were, and it still closes the table and
  program resources with \<open>objs.Close\<close>.
\<close>

theorem cleanup_empty_registry:
  assumes "links infc = []"
  shows "cleanup infc = infc\<lparr>trace := trace infc @ [CallCloseObjs]\<rparr> \<and>
         links (cleanup infc) = [] \<and> pinPath (cleanup infc) = pinPath infc \<and>
         cleanup infc \<noteq> infc"
proof -
  from assms have "cleanupLinks (links infc) (trace infc) = trace infc" by simp
  then have c: "cleanup infc = infc\<lparr>trace := trace infc @ [CallCloseObjs]\<rparr>"
    by (simp add: cleanup_def)
  have "trace (cleanup infc) \<noteq> trace infc"
    unfolding c by simp
  then have "cleanup infc \<noteq> infc" by auto
  with c assms show ?thesis by simp
qed

theorem cleanup_empty_registry_witness:
  "links emptyLoader = [] \<and>
   cleanup emptyLoader = emptyLoader\<lparr>trace := [CallCloseObjs]\<rparr>"
  using cleanup_empty_registry [of emptyLoader]
  by (simp add: cleanup_def emptyLoader_def)

theorem cleanup_empty_registry_counterexample:
  "links emptyLoader = [] \<and> cleanup emptyLoader \<noteq> emptyLoader \<and>
   trace (cleanup emptyLoader) = [CallCloseObjs]"
  by (simp add: cleanup_def emptyLoader_def)

end
